theory Spec2Isabelle
  imports Main "HOL-Library.AList"
begin

section \<open>The room coordinator of the buzzer server\<close>

text \<open>
  The server (server.ts) keeps two module-level maps, \<open>rooms\<close> (room code to room) and
  \<open>playerToRoom\<close> (socket id to room code), and registers one handler per socket event.
  Each handler runs to completion on the event loop, so a handler is a function from the
  state before to the state after, together with the list of messages it emits.

  Modelling choices:
  \<^item> \<open>room.players\<close> is a JavaScript \<open>Map\<close>, which iterates in insertion order and
    keeps the position of a key that is set again: an association list with
    \<open>AList.update\<close>, \<open>AList.delete\<close> and \<open>map_of\<close>.
  \<^item> \<open>rooms\<close> and \<open>playerToRoom\<close> are never iterated: partial functions.
  \<^item> \<open>Date.now()\<close> is an argument \<open>now\<close> of the handlers that read the clock.
  \<^item> \<open>Math.floor(Math.random() * chars.length)\<close> is read from a source of draws
    \<open>rnd :: nat \<Rightarrow> nat\<close>; the \<open>k\<close>-th call returns \<open>rnd k\<close>.
  \<^item> \<open>socket.emit\<close> and \<open>io.to(code).emit\<close> are recorded as \<open>ToSocket\<close> and \<open>ToRoom\<close>
    entries of the output list. The membership of socket.io's own broadcast rooms
    (\<open>socket.join\<close>) and \<open>console.log\<close> are not part of the model.
  \<^item> \<open>String.prototype.toUpperCase\<close> is a built-in of the JavaScript runtime, not code
    of the server: the handlers that call it take it as their parameter \<open>toUpperCase\<close>,
    and the general statements below hold for whatever function stands in its place.
\<close>

subsection \<open>Data (src/types/game.ts)\<close>

record Player =
  id_player :: string
  name :: string
  buzzTime :: "int option"

record Room =
  id_room :: string
  code :: string
  hostId :: string
  players :: "(string \<times> Player) list"
  isActive :: bool
  roundStartTime :: "int option"
  buzzOrder :: "string list"

record RoomState =
  code_rs :: string
  players_rs :: "Player list"
  isActive_rs :: bool
  buzzOrder_rs :: "Player list"

datatype msg =
    RoomCreated string
  | HostJoined string
  | RoomJoined string string
  | PlayerJoined Player
  | PlayerLeft string
  | RoundStarted int
  | RoundStopped
  | RoundReset
  | BuzzerPressed Player nat
  | RoomStateEv RoomState
  | ErrorEv string

datatype emit = ToSocket string msg | ToRoom string msg

record Server =
  rooms :: "string \<rightharpoonup> Room"
  playerToRoom :: "string \<rightharpoonup> string"

definition init :: Server where
  "init = \<lparr>rooms = Map.empty, playerToRoom = Map.empty\<rparr>"

subsection \<open>Helpers of server.ts\<close>

definition chars :: string where
  "chars = ''ABCDEFGHJKLMNPQRSTUVWXYZ23456789''"

text \<open>\<open>String.prototype.charAt\<close> returns the empty string for an index out of range.\<close>

definition charAt :: "string \<Rightarrow> nat \<Rightarrow> string" where
  "charAt s i = (if i < length s then [s ! i] else [])"

text \<open>
  \<open>generateRoomCode\<close> appends six drawn characters; \<open>n\<close> is the number of draws made
  before the call.
\<close>

definition generateRoomCode :: "(nat \<Rightarrow> nat) \<Rightarrow> nat \<Rightarrow> string" where
  "generateRoomCode rnd n = foldl (\<lambda>code i. code @ charAt chars (rnd (n + i))) [] [0..<6]"

definition getRoomState :: "Room \<Rightarrow> RoomState" where
  "getRoomState room =
     \<lparr>code_rs = code room,
      players_rs = map snd (players room),
      isActive_rs = isActive room,
      buzzOrder_rs = List.map_filter (map_of (players room)) (buzzOrder room)\<rparr>"

text \<open>\<open>room.players.forEach((player) => { player.buzzTime = null })\<close>\<close>

definition clearBuzzTimes :: "(string \<times> Player) list \<Rightarrow> (string \<times> Player) list" where
  "clearBuzzTimes ps = map (\<lambda>(k, player). (k, player\<lparr>buzzTime := None\<rparr>)) ps"

subsection \<open>The socket handlers\<close>

text \<open>
  The retry loop of \<open>createRoom\<close>:
  \<^verbatim>\<open>let code = generateRoomCode(); while (rooms.has(code)) { code = generateRoomCode(); }\<close>
  It has no bound on the number of retries, so it is a partial function: \<open>None\<close> means
  that the loop does not return.
\<close>

partial_function (option) createRoom_code ::
    "(nat \<Rightarrow> nat) \<Rightarrow> nat \<Rightarrow> (string \<rightharpoonup> Room) \<Rightarrow> string option" where
  "createRoom_code rnd n rs =
     (if rs (generateRoomCode rnd n) \<noteq> None
      then createRoom_code rnd (n + 6) rs
      else Some (generateRoomCode rnd n))"

definition createRoom :: "string \<Rightarrow> (nat \<Rightarrow> nat) \<Rightarrow> Server \<Rightarrow> (Server \<times> emit list) option" where
  "createRoom sid rnd st =
     (case createRoom_code rnd 0 (rooms st) of
        None \<Rightarrow> None
      | Some c \<Rightarrow>
          Some (st\<lparr>rooms := (rooms st)(c \<mapsto>
                      \<lparr>id_room = c, code = c, hostId = sid, players = [],
                       isActive = False, roundStartTime = None, buzzOrder = []\<rparr>),
                    playerToRoom := (playerToRoom st)(sid \<mapsto> c)\<rparr>,
                [ToSocket sid (RoomCreated c)]))"

definition joinAsHost ::
    "(string \<Rightarrow> string) \<Rightarrow> string \<Rightarrow> string \<Rightarrow> Server \<Rightarrow> Server \<times> emit list" where
  "joinAsHost toUpperCase sid roomCode st =
     (case rooms st (toUpperCase roomCode) of
        None \<Rightarrow> (st, [ToSocket sid (ErrorEv ''Room not found'')])
      | Some room \<Rightarrow>
          (st\<lparr>rooms := (rooms st)(toUpperCase roomCode \<mapsto> room\<lparr>hostId := sid\<rparr>),
               playerToRoom := (playerToRoom st)(sid \<mapsto> toUpperCase roomCode)\<rparr>,
           [ToSocket sid (HostJoined (code room))]))"

definition joinRoom ::
    "(string \<Rightarrow> string) \<Rightarrow> string \<Rightarrow> string \<Rightarrow> string \<Rightarrow> Server \<Rightarrow> Server \<times> emit list" where
  "joinRoom toUpperCase sid roomCode playerName st =
     (case rooms st (toUpperCase roomCode) of
        None \<Rightarrow> (st, [ToSocket sid (ErrorEv ''Room not found'')])
      | Some room \<Rightarrow>
          (let player = \<lparr>id_player = sid, name = playerName, buzzTime = None\<rparr>;
               room' = room\<lparr>players := AList.update sid player (players room)\<rparr>
           in (st\<lparr>rooms := (rooms st)(toUpperCase roomCode \<mapsto> room'),
                    playerToRoom := (playerToRoom st)(sid \<mapsto> toUpperCase roomCode)\<rparr>,
               [ToSocket sid (RoomJoined (code room) playerName),
                ToRoom (code room) (PlayerJoined player),
                ToRoom (code room) (RoomStateEv (getRoomState room'))])))"

text \<open>
  The host-only handlers start with
  \<^verbatim>\<open>const roomCode = playerToRoom.get(socket.id); if (!roomCode) return;\<close>
  \<^verbatim>\<open>const room = rooms.get(roomCode); if (!room || room.hostId !== socket.id) return;\<close>
  where \<open>!roomCode\<close> holds for \<open>undefined\<close> and for the empty string.
\<close>

definition startRound :: "string \<Rightarrow> int \<Rightarrow> Server \<Rightarrow> Server \<times> emit list" where
  "startRound sid now st =
     (case playerToRoom st sid of
        None \<Rightarrow> (st, [])
      | Some roomCode \<Rightarrow>
          if roomCode = [] then (st, [])
          else (case rooms st roomCode of
                  None \<Rightarrow> (st, [])
                | Some room \<Rightarrow>
                    if hostId room \<noteq> sid then (st, [])
                    else (let room' = room\<lparr>isActive := True, roundStartTime := Some now,
                                          buzzOrder := [],
                                          players := clearBuzzTimes (players room)\<rparr>
                          in (st\<lparr>rooms := (rooms st)(roomCode \<mapsto> room')\<rparr>,
                              [ToRoom roomCode (RoundStarted now),
                               ToRoom roomCode (RoomStateEv (getRoomState room'))]))))"

definition stopRound :: "string \<Rightarrow> Server \<Rightarrow> Server \<times> emit list" where
  "stopRound sid st =
     (case playerToRoom st sid of
        None \<Rightarrow> (st, [])
      | Some roomCode \<Rightarrow>
          if roomCode = [] then (st, [])
          else (case rooms st roomCode of
                  None \<Rightarrow> (st, [])
                | Some room \<Rightarrow>
                    if hostId room \<noteq> sid then (st, [])
                    else (let room' = room\<lparr>isActive := False\<rparr>
                          in (st\<lparr>rooms := (rooms st)(roomCode \<mapsto> room')\<rparr>,
                              [ToRoom roomCode RoundStopped,
                               ToRoom roomCode (RoomStateEv (getRoomState room'))]))))"

definition resetRound :: "string \<Rightarrow> Server \<Rightarrow> Server \<times> emit list" where
  "resetRound sid st =
     (case playerToRoom st sid of
        None \<Rightarrow> (st, [])
      | Some roomCode \<Rightarrow>
          if roomCode = [] then (st, [])
          else (case rooms st roomCode of
                  None \<Rightarrow> (st, [])
                | Some room \<Rightarrow>
                    if hostId room \<noteq> sid then (st, [])
                    else (let room' = room\<lparr>isActive := False, roundStartTime := None,
                                          buzzOrder := [],
                                          players := clearBuzzTimes (players room)\<rparr>
                          in (st\<lparr>rooms := (rooms st)(roomCode \<mapsto> room')\<rparr>,
                              [ToRoom roomCode RoundReset,
                               ToRoom roomCode (RoomStateEv (getRoomState room'))]))))"

text \<open>
  \<open>pressBuzzer\<close>: \<open>!room.roundStartTime\<close> holds for \<open>null\<close> and for \<open>0\<close>, while
  \<open>player.buzzTime !== null\<close> holds for every number, \<open>0\<close> included. The player object
  is mutated in place, so its position in \<open>players\<close> does not change.
\<close>

definition pressBuzzer :: "string \<Rightarrow> int \<Rightarrow> Server \<Rightarrow> Server \<times> emit list" where
  "pressBuzzer sid now st =
     (case playerToRoom st sid of
        None \<Rightarrow> (st, [])
      | Some roomCode \<Rightarrow>
          if roomCode = [] then (st, [])
          else (case rooms st roomCode of
                  None \<Rightarrow> (st, [])
                | Some room \<Rightarrow>
                    if \<not> isActive room then (st, [])
                    else (case roundStartTime room of
                            None \<Rightarrow> (st, [])
                          | Some t0 \<Rightarrow>
                              if t0 = 0 then (st, [])
                              else (case map_of (players room) sid of
                                      None \<Rightarrow> (st, [])
                                    | Some player \<Rightarrow>
                                        if buzzTime player \<noteq> None then (st, [])
                                        else (let player' = player\<lparr>buzzTime := Some (now - t0)\<rparr>;
                                                  room' = room\<lparr>players := AList.update sid player' (players room),
                                                               buzzOrder := buzzOrder room @ [sid]\<rparr>;
                                                  position = length (buzzOrder room')
                                              in (st\<lparr>rooms := (rooms st)(roomCode \<mapsto> room')\<rparr>,
                                                  [ToRoom roomCode (BuzzerPressed player' position),
                                                   ToRoom roomCode (RoomStateEv (getRoomState room'))]))))))"

definition getRoomStateReq :: "string \<Rightarrow> Server \<Rightarrow> Server \<times> emit list" where
  "getRoomStateReq sid st =
     (case playerToRoom st sid of
        None \<Rightarrow> (st, [])
      | Some roomCode \<Rightarrow>
          if roomCode = [] then (st, [])
          else (case rooms st roomCode of
                  None \<Rightarrow> (st, [])
                | Some room \<Rightarrow> (st, [ToSocket sid (RoomStateEv (getRoomState room))])))"

definition disconnect :: "string \<Rightarrow> Server \<Rightarrow> Server \<times> emit list" where
  "disconnect sid st =
     (case playerToRoom st sid of
        None \<Rightarrow> (st, [])
      | Some roomCode \<Rightarrow>
          if roomCode = [] then (st, [])
          else (case rooms st roomCode of
                  None \<Rightarrow> (st, [])
                | Some room \<Rightarrow>
                    if hostId room = sid
                    then (st\<lparr>rooms := (rooms st)(roomCode := None),
                             playerToRoom := (playerToRoom st)(sid := None)\<rparr>,
                          [ToRoom roomCode (ErrorEv ''Host left the room'')])
                    else (let room' = room\<lparr>players := AList.delete sid (players room),
                                          buzzOrder := filter (\<lambda>i. i \<noteq> sid) (buzzOrder room)\<rparr>
                          in (st\<lparr>rooms := (rooms st)(roomCode \<mapsto> room'),
                                   playerToRoom := (playerToRoom st)(sid := None)\<rparr>,
                              [ToRoom roomCode (PlayerLeft sid),
                               ToRoom roomCode (RoomStateEv (getRoomState room'))]))))"

subsection \<open>Commands, steps and runs\<close>

text \<open>
  One inbound event is handled to completion before the next one. A command carries the
  socket id of its sender and the inputs the handler reads from outside (the payload, the
  clock, the random draws).
\<close>

datatype command =
    CreateRoom string "nat \<Rightarrow> nat"
  | JoinAsHost string string
  | JoinRoom string string string
  | StartRound string int
  | StopRound string
  | ResetRound string
  | PressBuzzer string int
  | GetRoomState string
  | Disconnect string

text \<open>\<open>up\<close> is the function that stands for \<open>String.prototype.toUpperCase\<close>.\<close>

fun step :: "(string \<Rightarrow> string) \<Rightarrow> command \<Rightarrow> Server \<Rightarrow> (Server \<times> emit list) option" where
  "step up (CreateRoom sid rnd) st = createRoom sid rnd st"
| "step up (JoinAsHost sid roomCode) st = Some (joinAsHost up sid roomCode st)"
| "step up (JoinRoom sid roomCode playerName) st = Some (joinRoom up sid roomCode playerName st)"
| "step up (StartRound sid now) st = Some (startRound sid now st)"
| "step up (StopRound sid) st = Some (stopRound sid st)"
| "step up (ResetRound sid) st = Some (resetRound sid st)"
| "step up (PressBuzzer sid now) st = Some (pressBuzzer sid now st)"
| "step up (GetRoomState sid) st = Some (getRoomStateReq sid st)"
| "step up (Disconnect sid) st = Some (disconnect sid st)"

fun run ::
    "(string \<Rightarrow> string) \<Rightarrow> command list \<Rightarrow> Server \<Rightarrow> (Server \<times> emit list) option" where
  "run up [] st = Some (st, [])"
| "run up (c # cs) st =
     (case step up c st of
        None \<Rightarrow> None
      | Some (st', out) \<Rightarrow>
          (case run up cs st' of
             None \<Rightarrow> None
           | Some (st'', out') \<Rightarrow> Some (st'', out @ out')))"

inductive reachable :: "(string \<Rightarrow> string) \<Rightarrow> Server \<Rightarrow> bool" for up :: "string \<Rightarrow> string" where
  reachable_init: "reachable up init"
| reachable_step: "reachable up st \<Longrightarrow> step up c st = Some (st', out) \<Longrightarrow> reachable up st'"

text \<open>The ranks announced to a room: the positions of its \<open>buzzerPressed\<close> messages.\<close>

fun ranks :: "string \<Rightarrow> emit list \<Rightarrow> nat list" where
  "ranks c [] = []"
| "ranks c (ToRoom c' (BuzzerPressed p k) # out) = (if c' = c then k # ranks c out else ranks c out)"
| "ranks c (_ # out) = ranks c out"

subsection \<open>Predicates used by the statements\<close>

text \<open>
  The socket is bound to room \<open>c\<close> and is its host; the socket is bound to room \<open>c\<close>
  and is in its \<open>buzzOrder\<close>. (A binding to the empty code counts for nothing: the
  handlers return at \<open>if (!roomCode) return\<close>.)
\<close>

definition bound_host :: "Server \<Rightarrow> string \<Rightarrow> string \<Rightarrow> bool" where
  "bound_host st c sid \<longleftrightarrow>
     c \<noteq> [] \<and> playerToRoom st sid = Some c \<and>
     (case rooms st c of None \<Rightarrow> False | Some room \<Rightarrow> hostId room = sid)"

definition bound_arrival :: "Server \<Rightarrow> string \<Rightarrow> string \<Rightarrow> bool" where
  "bound_arrival st c sid \<longleftrightarrow>
     c \<noteq> [] \<and> playerToRoom st sid = Some c \<and>
     (case rooms st c of None \<Rightarrow> False | Some room \<Rightarrow> sid \<in> set (buzzOrder room))"

text \<open>
  The commands that, sent in state \<open>st\<close>, end the round of room \<open>c\<close> or take an entry
  out of its \<open>buzzOrder\<close>: \<open>startRound\<close> and \<open>resetRound\<close> by the room's bound host
  (a new round begins), the disconnect of the bound host (the room is deleted), and the
  disconnect of a socket that is bound to the room and has an entry in its \<open>buzzOrder\<close>
  (the entry is filtered out). The same commands from any other socket, or for any other
  room, are not among them.
\<close>

fun disturbs :: "string \<Rightarrow> Server \<Rightarrow> command \<Rightarrow> bool" where
  "disturbs c st (StartRound sid now) = bound_host st c sid"
| "disturbs c st (ResetRound sid) = bound_host st c sid"
| "disturbs c st (Disconnect sid) = (bound_host st c sid \<or> bound_arrival st c sid)"
| "disturbs c st _ = False"

text \<open>No command of the run disturbs room \<open>c\<close> in the state it is sent in.\<close>

fun undisturbed :: "(string \<Rightarrow> string) \<Rightarrow> string \<Rightarrow> command list \<Rightarrow> Server \<Rightarrow> bool" where
  "undisturbed up c [] st = True"
| "undisturbed up c (cmd # cs) st =
     (if disturbs c st cmd then False
      else (case step up cmd st of
              None \<Rightarrow> True
            | Some (st', out) \<Rightarrow> undisturbed up c cs st'))"

fun is_reset :: "command \<Rightarrow> bool" where
  "is_reset (ResetRound sid) = True"
| "is_reset _ = False"

text \<open>What every handler preserves about one room, and about the registry.\<close>

definition room_inv :: "Room \<Rightarrow> bool" where
  "room_inv r \<longleftrightarrow>
     distinct (map fst (players r)) \<and>
     set (buzzOrder r) \<subseteq> fst ` set (players r) \<and>
     (isActive r \<longrightarrow> roundStartTime r \<noteq> None) \<and>
     (\<forall>sid p. map_of (players r) sid = Some p \<and> buzzTime p \<noteq> None \<longrightarrow> sid \<in> set (buzzOrder r))"

definition server_inv :: "Server \<Rightarrow> bool" where
  "server_inv st \<longleftrightarrow> (\<forall>c r. rooms st c = Some r \<longrightarrow> room_inv r)"

subsection \<open>The random source\<close>

text \<open>The codes \<open>generateRoomCode\<close> draws from: six characters of \<open>chars\<close>.\<close>

definition code_space :: "string set" where
  "code_space = {s. length s = 6 \<and> set s \<subseteq> set chars}"

text \<open>
  \<open>Math.random\<close> is a random generator, not an arbitrary sequence. What the retry loop
  of \<open>createRoom\<close> needs of it is stated as fairness of the source: whatever six indices
  into \<open>chars\<close> one names, some try of the loop draws exactly these six (independent
  uniform draws do so with probability one). Only the statement about the return of
  \<open>createRoom\<close> assumes it.
\<close>

definition fair :: "(nat \<Rightarrow> nat) \<Rightarrow> bool" where
  "fair rnd \<longleftrightarrow>
     (\<forall>ds. length ds = 6 \<and> list_all (\<lambda>d. d < length chars) ds \<longrightarrow>
           (\<exists>k. map (\<lambda>i. rnd (6 * k + i)) [0..<6] = ds))"

subsection \<open>Concrete sessions\<close>

text \<open>
  A fair source: try number \<open>j\<close> draws the six base-32 digits of \<open>j\<close>, lowest digit
  first, so the tries run through the codes \<open>AAAAAA\<close>, \<open>BAAAAA\<close>, \<open>CAAAAA\<close>, ...
  \<open>encode\<close> is the try number that draws a given block of digits.
\<close>

fun digit :: "nat \<Rightarrow> nat \<Rightarrow> nat" where
  "digit 0 n = n mod 32"
| "digit (Suc i) n = digit i (n div 32)"

definition counter :: "nat \<Rightarrow> nat" where
  "counter k = digit (k mod 6) (k div 6)"

fun encode :: "nat list \<Rightarrow> nat" where
  "encode [] = 0"
| "encode (d # ds) = d + 32 * encode ds"

text \<open>
  The sessions send ASCII text only. On ASCII text \<open>String.prototype.toUpperCase\<close> maps
  \<open>a\<close>..\<open>z\<close> to \<open>A\<close>..\<open>Z\<close> and leaves every other character alone; \<open>ascii_upper\<close>
  stands for it in the sessions.
\<close>

definition upper_char :: "char \<Rightarrow> char" where
  "upper_char c =
     (if (97::nat) \<le> of_char c \<and> of_char c \<le> (122::nat)
      then char_of (of_char c - (32::nat)) else c)"

definition ascii_upper :: "string \<Rightarrow> string" where
  "ascii_upper s = map upper_char s"

text \<open>A host opens a room, three contestants join, the round starts, two of them signal.\<close>

definition lobby :: "command list" where
  "lobby = [CreateRoom ''h'' counter, JoinRoom ''a'' ''aaaaaa'' ''Ann'',
            JoinRoom ''b'' ''AAAAAA'' ''Bob'', JoinRoom ''c'' ''AAAAAA'' ''Cy'',
            StartRound ''h'' 1000]"

definition race :: "command list" where
  "race = lobby @ [PressBuzzer ''a'' 1010, PressBuzzer ''b'' 1020]"

definition quiz_room :: Room where
  "quiz_room =
     \<lparr>id_room = ''AAAAAA'', code = ''AAAAAA'', hostId = ''h'',
      players = [(''a'', \<lparr>id_player = ''a'', name = ''Ann'', buzzTime = Some 10\<rparr>),
                 (''b'', \<lparr>id_player = ''b'', name = ''Bob'', buzzTime = Some 20\<rparr>),
                 (''c'', \<lparr>id_player = ''c'', name = ''Cy'', buzzTime = None\<rparr>)],
      isActive = True, roundStartTime = Some 1000, buzzOrder = [''a'', ''b'']\<rparr>"

definition quiz_state :: Server where
  "quiz_state =
     \<lparr>rooms = [''AAAAAA'' \<mapsto> quiz_room],
      playerToRoom = [''h'' \<mapsto> ''AAAAAA'', ''a'' \<mapsto> ''AAAAAA'', ''b'' \<mapsto> ''AAAAAA'',
                      ''c'' \<mapsto> ''AAAAAA'']\<rparr>"

text \<open>One contestant signals, joins the same room again on the same socket, signals again.\<close>

definition rejoin :: "command list" where
  "rejoin = [CreateRoom ''h'' counter, JoinRoom ''a'' ''AAAAAA'' ''Ann'', StartRound ''h'' 1000,
             PressBuzzer ''a'' 1010, JoinRoom ''a'' ''AAAAAA'' ''Ann'']"

text \<open>
  What follows the race in the same round: a repeated signal, a late joiner, the
  disconnect of the contestant who has not signalled, a \<open>startRound\<close> from a socket that
  is not the host, the late joiner's signal, the stop, and a signal after the stop.
\<close>

definition encore :: "command list" where
  "encore = [PressBuzzer ''a'' 1030, JoinRoom ''d'' ''AAAAAA'' ''Di'', Disconnect ''c'',
             StartRound ''a'' 1035, PressBuzzer ''d'' 1040, StopRound ''h'',
             PressBuzzer ''d'' 1050]"

text \<open>The room a session ends with, and the ranks it announced to that room.\<close>

definition final_room :: "command list \<Rightarrow> string \<Rightarrow> Room option" where
  "final_room cs c = (case run ascii_upper cs init of None \<Rightarrow> None | Some (st, out) \<Rightarrow> rooms st c)"

definition final_binding :: "command list \<Rightarrow> string \<Rightarrow> string option" where
  "final_binding cs sid =
     (case run ascii_upper cs init of None \<Rightarrow> None | Some (st, out) \<Rightarrow> playerToRoom st sid)"

definition announced :: "command list \<Rightarrow> string \<Rightarrow> nat list option" where
  "announced cs c = (case run ascii_upper cs init of None \<Rightarrow> None | Some (st, out) \<Rightarrow> Some (ranks c out))"

section \<open>Properties\<close>

subsection \<open>Evaluating the concrete sessions\<close>

lemmas handler_defs = createRoom_def joinAsHost_def joinRoom_def startRound_def stopRound_def
  resetRound_def pressBuzzer_def getRoomStateReq_def disconnect_def

lemmas eval_defs = handler_defs init_def Let_def getRoomState_def clearBuzzTimes_def
  List.map_filter_def

lemma generate_counter:
  "generateRoomCode counter 0 = ''AAAAAA''" "generateRoomCode counter 6 = ''BAAAAA''"
  by code_simp+

lemma upper_codes:
  "ascii_upper ''aaaaaa'' = ''AAAAAA''" "ascii_upper ''AAAAAA'' = ''AAAAAA''"
  by code_simp+

lemma run_race: "map_option fst (run ascii_upper race init) = Some quiz_state"
  by (simp add: race_def lobby_def quiz_state_def quiz_room_def eval_defs
        createRoom_code.simps generate_counter upper_codes)

lemma quiz_state_facts:
  "rooms quiz_state ''AAAAAA'' = Some quiz_room"
  "playerToRoom quiz_state ''h'' = Some ''AAAAAA''"
  "playerToRoom quiz_state ''a'' = Some ''AAAAAA''"
  "hostId quiz_room = ''h''"
  "isActive quiz_room"
  by (simp_all add: quiz_state_def quiz_room_def)

subsection \<open>The retry loop of createRoom\<close>

lemma createRoom_code_fresh:
  assumes "createRoom_code rnd n rs = Some c"
  shows "rs c = None"
proof (rule createRoom_code.raw_induct[where P = "\<lambda>rnd n rs c. rs c = None", OF _ assms])
  fix f :: "(nat \<Rightarrow> nat) \<Rightarrow> nat \<Rightarrow> (string \<rightharpoonup> Room) \<Rightarrow> string option" and rnd n rs c
  assume ih: "\<And>rnd n rs c. f rnd n rs = Some c \<Longrightarrow> rs c = None"
    and eq: "(if rs (generateRoomCode rnd n) \<noteq> None then f rnd (n + 6) rs
              else Some (generateRoomCode rnd n)) = Some c"
  show "rs c = None"
  proof (cases "rs (generateRoomCode rnd n) = None")
    case True
    with eq show ?thesis by auto
  next
    case False
    with eq have "f rnd (n + 6) rs = Some c" by simp
    then show ?thesis by (rule ih)
  qed
qed

lemma createRoom_code_returns:
  "rs (generateRoomCode rnd (n + 6 * k)) = None \<Longrightarrow> \<exists>c. createRoom_code rnd n rs = Some c"
proof (induction k arbitrary: n)
  case 0
  then show ?case by (subst createRoom_code.simps) simp
next
  case (Suc k)
  have "rs (generateRoomCode rnd ((n + 6) + 6 * k)) = None"
    using Suc.prems by (simp add: add.assoc)
  then obtain c where "createRoom_code rnd (n + 6) rs = Some c"
    using Suc.IH by blast
  then show ?case by (subst createRoom_code.simps) simp
qed

subsection \<open>Ranks within a round\<close>

lemma step_undisturbed:
  assumes "step up cmd st = Some (st', out)" "rooms st c = Some r" "\<not> disturbs c st cmd"
  shows "\<exists>r'. rooms st' c = Some r' \<and>
           ((ranks c out = [] \<and> buzzOrder r' = buzzOrder r) \<or>
            (\<exists>sid. ranks c out = [Suc (length (buzzOrder r))] \<and> buzzOrder r' = buzzOrder r @ [sid]))"
proof (cases cmd)
  case (CreateRoom sid rnd)
  with assms(1) obtain c' where c': "createRoom_code rnd 0 (rooms st) = Some c'"
    and st': "st' = st\<lparr>rooms := (rooms st)(c' \<mapsto>
                      \<lparr>id_room = c', code = c', hostId = sid, players = [],
                       isActive = False, roundStartTime = None, buzzOrder = []\<rparr>),
                    playerToRoom := (playerToRoom st)(sid \<mapsto> c')\<rparr>"
    and out: "out = [ToSocket sid (RoomCreated c')]"
    by (auto simp: createRoom_def split: option.splits)
  from createRoom_code_fresh[OF c'] assms(2) have "c' \<noteq> c" by auto
  with st' out assms(2) show ?thesis by simp
next
  case (JoinAsHost sid rc)
  with assms show ?thesis
    by (auto simp: joinAsHost_def split: option.splits)
next
  case (JoinRoom sid rc nm)
  with assms show ?thesis
    by (auto simp: joinRoom_def Let_def split: option.splits)
next
  case (StartRound sid now)
  with assms show ?thesis
    by (auto simp: startRound_def Let_def bound_host_def split: option.splits if_splits)
next
  case (StopRound sid)
  with assms show ?thesis
    by (auto simp: stopRound_def Let_def split: option.splits if_splits)
next
  case (ResetRound sid)
  with assms show ?thesis
    by (auto simp: resetRound_def Let_def bound_host_def split: option.splits if_splits)
next
  case (PressBuzzer sid now)
  with assms show ?thesis
    by (auto simp: pressBuzzer_def Let_def split: option.splits if_splits)
next
  case (GetRoomState sid)
  with assms show ?thesis
    by (auto simp: getRoomStateReq_def split: option.splits if_splits)
next
  case (Disconnect sid)
  with assms show ?thesis
    by (auto simp: disconnect_def Let_def bound_host_def bound_arrival_def filter_id_conv
          split: option.splits if_splits)
qed

lemma ranks_append: "ranks c (xs @ ys) = ranks c xs @ ranks c ys"
  by (induction c xs rule: ranks.induct) auto

lemma run_encore: "\<exists>st out. run ascii_upper encore quiz_state = Some (st, out)"
  by (simp add: encore_def quiz_state_def quiz_room_def eval_defs upper_codes)

text \<open>
  C1 (as amended). The rank sent with an accepted signal is the length of \<open>buzzOrder\<close>
  right after the append. Take any run of commands, from any sockets and for any rooms,
  in which room \<open>c\<close> is not disturbed: its bound host sends no startRound or resetRound
  and does not disconnect (the round and the room go on), and no socket that is bound to
  the room and already has an entry in its \<open>buzzOrder\<close> disconnects. Then the ranks
  announced to the room count up by one from the length \<open>buzzOrder\<close> had at the start
  (so they are 1, 2, 3, ... when the run begins right after startRound), and the entries
  \<open>buzzOrder\<close> had at the start keep their positions.
\<close>

theorem ranks_count_up_while_undisturbed:
  assumes "run up cs st = Some (st', out)" "rooms st c = Some r"
    and "undisturbed up c cs st"
  shows "\<exists>r' ys. rooms st' c = Some r' \<and> buzzOrder r' = buzzOrder r @ ys \<and>
           ranks c out = map (\<lambda>i. length (buzzOrder r) + i + 1) [0..<length ys] \<and>
           (buzzOrder r = [] \<longrightarrow> ranks c out = [1..<Suc (length ys)])"
proof -
  have main: "\<exists>r' ys. rooms st' c = Some r' \<and> buzzOrder r' = buzzOrder r @ ys \<and>
           ranks c out = map (\<lambda>i. length (buzzOrder r) + i + 1) [0..<length ys]"
    using assms
  proof (induction cs arbitrary: st out r)
    case Nil
    then show ?case by simp
  next
    case (Cons cmd cs)
    from Cons.prems(1) obtain st1 out1 out2 where
      s1: "step up cmd st = Some (st1, out1)" and s2: "run up cs st1 = Some (st', out2)"
      and o: "out = out1 @ out2"
      by (auto split: option.splits prod.splits)
    from Cons.prems(3) s1 have k: "\<not> disturbs c st cmd" and ks: "undisturbed up c cs st1"
      by (auto split: if_splits)
    from step_undisturbed[OF s1 Cons.prems(2) k] obtain r1 where
      r1: "rooms st1 c = Some r1" and
      d: "(ranks c out1 = [] \<and> buzzOrder r1 = buzzOrder r) \<or>
          (\<exists>sid. ranks c out1 = [Suc (length (buzzOrder r))] \<and> buzzOrder r1 = buzzOrder r @ [sid])"
      by blast
    from Cons.IH[OF s2 r1 ks] obtain r' ys where
      r': "rooms st' c = Some r'" and b: "buzzOrder r' = buzzOrder r1 @ ys" and
      rk: "ranks c out2 = map (\<lambda>i. length (buzzOrder r1) + i + 1) [0..<length ys]"
      by blast
    from d show ?case
    proof
      assume "ranks c out1 = [] \<and> buzzOrder r1 = buzzOrder r"
      with r' b rk o show ?thesis by (auto simp: ranks_append)
    next
      assume "\<exists>sid. ranks c out1 = [Suc (length (buzzOrder r))] \<and> buzzOrder r1 = buzzOrder r @ [sid]"
      then obtain sid where a1: "ranks c out1 = [Suc (length (buzzOrder r))]"
        and a2: "buzzOrder r1 = buzzOrder r @ [sid]" by blast
      have "map (\<lambda>i. length (buzzOrder r) + i + 1) [0..<length (sid # ys)]
            = Suc (length (buzzOrder r)) # map (\<lambda>i. length (buzzOrder r1) + i + 1) [0..<length ys]"
        using a2 by (simp add: upt_conv_Cons map_Suc_upt[symmetric] del: upt_Suc)
      with r' b rk o a1 a2 show ?thesis
        by (intro exI[of _ r'] exI[of _ "sid # ys"]) (simp add: ranks_append)
    qed
  qed
  then obtain r' ys where r': "rooms st' c = Some r'" and b: "buzzOrder r' = buzzOrder r @ ys"
    and rk: "ranks c out = map (\<lambda>i. length (buzzOrder r) + i + 1) [0..<length ys]"
    by blast
  have "buzzOrder r = [] \<longrightarrow> ranks c out = [1..<Suc (length ys)]"
  proof
    assume "buzzOrder r = []"
    with rk have "ranks c out = map Suc [0..<length ys]" by simp
    then show "ranks c out = [1..<Suc (length ys)]" by (simp add: map_Suc_upt)
  qed
  with r' b rk show ?thesis by blast
qed

theorem ranks_count_up_while_undisturbed_witness:
  "undisturbed ascii_upper ''AAAAAA'' encore quiz_state \<and>
   rooms quiz_state ''AAAAAA'' = Some quiz_room \<and>
   buzzOrder quiz_room = [''a'', ''b''] \<and>
   map_option buzzOrder (rooms (fst (the (run ascii_upper encore quiz_state))) ''AAAAAA'')
     = Some [''a'', ''b'', ''d''] \<and>
   ranks ''AAAAAA'' (snd (the (run ascii_upper encore quiz_state))) = [3]"
proof -
  have u: "undisturbed ascii_upper ''AAAAAA'' encore quiz_state"
    by (simp add: encore_def quiz_state_def quiz_room_def eval_defs upper_codes
          bound_host_def bound_arrival_def)
  have q: "rooms quiz_state ''AAAAAA'' = Some quiz_room"
    by (rule quiz_state_facts)
  have o: "buzzOrder quiz_room = [''a'', ''b'']"
    by (simp add: quiz_room_def)
  have f: "map_option buzzOrder (rooms (fst (the (run ascii_upper encore quiz_state))) ''AAAAAA'')
             = Some [''a'', ''b'', ''d'']"
    by (simp add: encore_def quiz_state_def quiz_room_def eval_defs upper_codes)
  from run_encore have
    r: "run ascii_upper encore quiz_state
        = Some (fst (the (run ascii_upper encore quiz_state)),
                snd (the (run ascii_upper encore quiz_state)))"
    by auto
  from ranks_count_up_while_undisturbed[OF r q u] obtain r' ys where
    r': "rooms (fst (the (run ascii_upper encore quiz_state))) ''AAAAAA'' = Some r'"
    and b: "buzzOrder r' = buzzOrder quiz_room @ ys"
    and rk: "ranks ''AAAAAA'' (snd (the (run ascii_upper encore quiz_state)))
             = map (\<lambda>i. length (buzzOrder quiz_room) + i + 1) [0..<length ys]"
    by blast
  from f r' b o have "ys = [''d'']" by simp
  with rk o have "ranks ''AAAAAA'' (snd (the (run ascii_upper encore quiz_state))) = [3]"
    by simp
  with u q o f show ?thesis by simp
qed

text \<open>
  C1 (as stated) fails: after two accepted signals the first contestant disconnects, the
  handler filters it out of \<open>buzzOrder\<close>, and the third accepted signal of the round is
  announced with rank 2 again.
\<close>

theorem rank_repeats_after_disconnect:
  "announced (race @ [Disconnect ''a'', PressBuzzer ''c'' 1030]) ''AAAAAA'' = Some [1, 2, 2]"
  by (simp add: announced_def race_def lobby_def eval_defs
        createRoom_code.simps generate_counter upper_codes)

subsection \<open>What every reachable state satisfies\<close>

lemma map_of_clearBuzzTimes:
  "map_of (clearBuzzTimes ps) k = map_option (\<lambda>p. p\<lparr>buzzTime := None\<rparr>) (map_of ps k)"
  by (induction ps) (auto simp: clearBuzzTimes_def)

lemma keys_clearBuzzTimes: "map fst (clearBuzzTimes ps) = map fst ps"
  by (induction ps) (auto simp: clearBuzzTimes_def)

lemma buzzTime_clearBuzzTimes: "(k, p) \<in> set (clearBuzzTimes ps) \<Longrightarrow> buzzTime p = None"
  by (auto simp: clearBuzzTimes_def)

lemma keys_delete: "fst ` set (AList.delete k al) = fst ` set al - {k}"
  by (induction al) auto

lemma room_inv_new:
  "room_inv \<lparr>id_room = c, code = c, hostId = sid, players = [], isActive = False,
             roundStartTime = None, buzzOrder = []\<rparr>"
  by (simp add: room_inv_def)

lemma room_inv_host: "room_inv r \<Longrightarrow> room_inv (r\<lparr>hostId := sid\<rparr>)"
  by (simp add: room_inv_def)

lemma room_inv_join:
  "room_inv r \<Longrightarrow> buzzTime p = None \<Longrightarrow>
   room_inv (r\<lparr>players := AList.update sid p (players r)\<rparr>)"
  by (auto simp: room_inv_def distinct_update dom_update update_conv' split: if_splits)

lemma room_inv_start:
  "room_inv r \<Longrightarrow>
   room_inv (r\<lparr>isActive := True, roundStartTime := Some now, buzzOrder := [],
               players := clearBuzzTimes (players r)\<rparr>)"
  by (auto simp: room_inv_def keys_clearBuzzTimes map_of_clearBuzzTimes)

lemma room_inv_stop: "room_inv r \<Longrightarrow> room_inv (r\<lparr>isActive := False\<rparr>)"
  by (simp add: room_inv_def)

lemma room_inv_reset:
  "room_inv r \<Longrightarrow>
   room_inv (r\<lparr>isActive := False, roundStartTime := None, buzzOrder := [],
               players := clearBuzzTimes (players r)\<rparr>)"
  by (auto simp: room_inv_def keys_clearBuzzTimes map_of_clearBuzzTimes)

lemma room_inv_press:
  "room_inv r \<Longrightarrow> map_of (players r) sid = Some p \<Longrightarrow>
   room_inv (r\<lparr>players := AList.update sid p' (players r), buzzOrder := buzzOrder r @ [sid]\<rparr>)"
  by (auto simp: room_inv_def distinct_update dom_update update_conv' split: if_splits)

lemma room_inv_leave:
  "room_inv r \<Longrightarrow>
   room_inv (r\<lparr>players := AList.delete sid (players r),
               buzzOrder := filter (\<lambda>i. i \<noteq> sid) (buzzOrder r)\<rparr>)"
  by (auto simp: room_inv_def distinct_delete delete_conv' keys_delete split: if_splits)

lemma server_inv_upd:
  "server_inv st \<Longrightarrow> room_inv r \<Longrightarrow>
   server_inv (st\<lparr>rooms := (rooms st)(c \<mapsto> r), playerToRoom := m\<rparr>)"
  "server_inv st \<Longrightarrow> room_inv r \<Longrightarrow> server_inv (st\<lparr>rooms := (rooms st)(c \<mapsto> r)\<rparr>)"
  "server_inv st \<Longrightarrow> server_inv (st\<lparr>rooms := (rooms st)(c := None), playerToRoom := m\<rparr>)"
  by (auto simp: server_inv_def)

lemma server_inv_room: "server_inv st \<Longrightarrow> rooms st c = Some r \<Longrightarrow> room_inv r"
  by (auto simp: server_inv_def)

lemma server_inv_step:
  assumes "server_inv st" "step up c st = Some (st', out)"
  shows "server_inv st'"
proof (cases c)
  case (CreateRoom sid rnd)
  with assms show ?thesis
    by (auto simp: createRoom_def split: option.splits intro!: server_inv_upd room_inv_new)
next
  case (JoinAsHost sid rc)
  with assms show ?thesis
    by (auto simp: joinAsHost_def split: option.splits
          intro!: server_inv_upd room_inv_host dest: server_inv_room)
next
  case (JoinRoom sid rc nm)
  with assms show ?thesis
    by (auto simp: joinRoom_def Let_def split: option.splits
          intro!: server_inv_upd room_inv_join dest: server_inv_room)
next
  case (StartRound sid now)
  with assms show ?thesis
    by (auto simp: startRound_def Let_def split: option.splits if_splits
          intro!: server_inv_upd room_inv_start dest: server_inv_room)
next
  case (StopRound sid)
  with assms show ?thesis
    by (auto simp: stopRound_def Let_def split: option.splits if_splits
          intro!: server_inv_upd room_inv_stop dest: server_inv_room)
next
  case (ResetRound sid)
  with assms show ?thesis
    by (auto simp: resetRound_def Let_def split: option.splits if_splits
          intro!: server_inv_upd room_inv_reset dest: server_inv_room)
next
  case (PressBuzzer sid now)
  with assms show ?thesis
    by (auto simp: pressBuzzer_def Let_def split: option.splits if_splits
          intro!: server_inv_upd room_inv_press dest: server_inv_room)
next
  case (GetRoomState sid)
  with assms show ?thesis
    by (auto simp: getRoomStateReq_def split: option.splits if_splits)
next
  case (Disconnect sid)
  with assms show ?thesis
    by (auto simp: disconnect_def Let_def split: option.splits if_splits
          intro!: server_inv_upd room_inv_leave dest: server_inv_room)
qed

lemma reachable_inv: "reachable up st \<Longrightarrow> server_inv st"
proof (induction rule: reachable.induct)
  case reachable_init
  show ?case by (simp add: server_inv_def init_def)
next
  case (reachable_step st c st' out)
  then show ?case by (blast intro: server_inv_step)
qed

lemma reachable_run: "reachable up st \<Longrightarrow> run up cs st = Some (st', out) \<Longrightarrow> reachable up st'"
proof (induction cs arbitrary: st out)
  case Nil
  then show ?case by simp
next
  case (Cons c cs)
  then show ?case
    by (auto split: option.splits prod.splits intro: reachable.reachable_step)
qed

lemma reachable_quiz_state: "reachable ascii_upper quiz_state"
proof -
  from run_race obtain out where "run ascii_upper race init = Some (quiz_state, out)"
    by (auto simp: map_option_case split: option.splits)
  with reachable_init show ?thesis by (rule reachable_run)
qed

subsection \<open>A repeated signal\<close>

text \<open>
  C4. When a socket is a contestant of a room and that contestant's \<open>buzzTime\<close> is
  already set, a further \<open>pressBuzzer\<close> from the socket leaves that room as it is and
  announces no rank to it; \<open>pressBuzzer\<close> never emits an error. When the room is the one
  the socket is bound to, the handler returns at the guard \<open>player.buzzTime !== null\<close>:
  it emits nothing at all and the whole server state, \<open>buzzOrder\<close> and the contestant's
  \<open>buzzTime\<close> included, is what it was.
\<close>

theorem repeated_signal_discarded:
  assumes "rooms st c = Some room" "map_of (players room) sid = Some player"
    and "buzzTime player \<noteq> None"
  shows "rooms (fst (pressBuzzer sid now st)) c = Some room \<and>
         ranks c (snd (pressBuzzer sid now st)) = [] \<and>
         (\<forall>t m. ToSocket t (ErrorEv m) \<notin> set (snd (pressBuzzer sid now st)) \<and>
                ToRoom t (ErrorEv m) \<notin> set (snd (pressBuzzer sid now st))) \<and>
         (playerToRoom st sid = Some c \<longrightarrow> pressBuzzer sid now st = (st, []))"
  using assms
  by (auto simp: pressBuzzer_def Let_def split: option.splits)

theorem repeated_signal_discarded_witness:
  "rooms quiz_state ''AAAAAA'' = Some quiz_room \<and>
   map_of (players quiz_room) ''a'' = Some \<lparr>id_player = ''a'', name = ''Ann'', buzzTime = Some 10\<rparr> \<and>
   buzzTime \<lparr>id_player = ''a'', name = ''Ann'', buzzTime = Some 10\<rparr> \<noteq> None \<and>
   playerToRoom quiz_state ''a'' = Some ''AAAAAA'' \<and>
   pressBuzzer ''a'' 1030 quiz_state = (quiz_state, [])"
proof -
  have p: "map_of (players quiz_room) ''a''
           = Some \<lparr>id_player = ''a'', name = ''Ann'', buzzTime = Some 10\<rparr>"
    by (simp add: quiz_room_def)
  have b: "buzzTime \<lparr>id_player = ''a'', name = ''Ann'', buzzTime = Some 10\<rparr> \<noteq> None"
    by simp
  from repeated_signal_discarded[OF quiz_state_facts(1) p b, where now = 1030]
    quiz_state_facts p b
  show ?thesis by simp
qed

subsection \<open>The host's round commands\<close>

text \<open>
  C5. When the socket is bound to a room whose \<open>hostId\<close> it is, \<open>startRound\<close> leaves
  that room with \<open>buzzOrder = []\<close>, every contestant's \<open>buzzTime = null\<close>,
  \<open>roundStartTime = now\<close> and \<open>isActive = true\<close>, whatever the room held before; the
  contestants themselves stay, in the same order.
\<close>

theorem startRound_clears_round:
  assumes "playerToRoom st sid = Some c" "c \<noteq> []" "rooms st c = Some room" "hostId room = sid"
  shows "\<exists>room'. rooms (fst (startRound sid now st)) c = Some room' \<and>
           buzzOrder room' = [] \<and>
           (\<forall>(k, p) \<in> set (players room'). buzzTime p = None) \<and>
           map fst (players room') = map fst (players room) \<and>
           roundStartTime room' = Some now \<and>
           isActive room'"
  using assms
  by (auto simp add: startRound_def Let_def keys_clearBuzzTimes dest: buzzTime_clearBuzzTimes)

theorem startRound_clears_round_witness:
  "playerToRoom quiz_state ''h'' = Some ''AAAAAA'' \<and> ''AAAAAA'' \<noteq> [] \<and>
   rooms quiz_state ''AAAAAA'' = Some quiz_room \<and> hostId quiz_room = ''h'' \<and>
   buzzOrder quiz_room = [''a'', ''b''] \<and>
   (\<exists>room'. rooms (fst (startRound ''h'' 2000 quiz_state)) ''AAAAAA'' = Some room' \<and>
           buzzOrder room' = [] \<and>
           (\<forall>(k, p) \<in> set (players room'). buzzTime p = None) \<and>
           map fst (players room') = map fst (players quiz_room) \<and>
           roundStartTime room' = Some 2000 \<and>
           isActive room')"
proof -
  have n: "''AAAAAA'' \<noteq> []" by simp
  have b: "buzzOrder quiz_room = [''a'', ''b'']" by (simp add: quiz_room_def)
  from startRound_clears_round[OF quiz_state_facts(2) n quiz_state_facts(1) quiz_state_facts(4),
      of 2000] quiz_state_facts b
  show ?thesis by simp
qed

lemma step_keeps_roundStart:
  assumes "step up cmd st = Some (st', out)" "rooms st c = Some r" "roundStartTime r \<noteq> None"
    and "\<not> is_reset cmd" "rooms st' c = Some r'"
  shows "roundStartTime r' \<noteq> None"
proof (cases cmd)
  case (CreateRoom sid rnd)
  with assms(1) obtain c' where c': "createRoom_code rnd 0 (rooms st) = Some c'"
    and st': "rooms st' = (rooms st)(c' \<mapsto>
                      \<lparr>id_room = c', code = c', hostId = sid, players = [],
                       isActive = False, roundStartTime = None, buzzOrder = []\<rparr>)"
    by (auto simp: createRoom_def split: option.splits)
  from createRoom_code_fresh[OF c'] assms(2) have "c' \<noteq> c" by auto
  with st' assms show ?thesis by simp
next
  case (JoinAsHost sid rc)
  with assms show ?thesis
    by (auto simp: joinAsHost_def split: option.splits if_splits)
next
  case (JoinRoom sid rc nm)
  with assms show ?thesis
    by (auto simp: joinRoom_def Let_def split: option.splits if_splits)
next
  case (StartRound sid now)
  with assms show ?thesis
    by (auto simp: startRound_def Let_def split: option.splits if_splits)
next
  case (StopRound sid)
  with assms show ?thesis
    by (auto simp: stopRound_def Let_def split: option.splits if_splits)
next
  case (ResetRound sid)
  with assms show ?thesis by simp
next
  case (PressBuzzer sid now)
  with assms show ?thesis
    by (auto simp: pressBuzzer_def Let_def split: option.splits if_splits)
next
  case (GetRoomState sid)
  with assms show ?thesis
    by (auto simp: getRoomStateReq_def split: option.splits if_splits)
next
  case (Disconnect sid)
  with assms show ?thesis
    by (auto simp: disconnect_def Let_def split: option.splits if_splits)
qed

text \<open>
  C6. In a reachable state, when the socket is bound to an active room whose \<open>hostId\<close>
  it is, \<open>stopRound\<close> replaces that room by itself with \<open>isActive = false\<close> and changes
  nothing else: \<open>buzzOrder\<close>, the contestants with their \<open>buzzTime\<close>, \<open>roundStartTime\<close>
  and the host are the same, every other room and every binding is untouched.
  \<open>roundStartTime\<close> is non-null (the room was active) and stays non-null, also through
  any further command that leaves the room in place and is not a resetRound.
\<close>

theorem stopRound_only_clears_isActive:
  assumes "reachable up st" "playerToRoom st sid = Some c" "c \<noteq> []" "rooms st c = Some room"
    and "hostId room = sid" "isActive room" "stopRound sid st = (st', out)"
  shows "\<exists>room'. rooms st' c = Some room' \<and> room' = room\<lparr>isActive := False\<rparr> \<and>
           \<not> isActive room' \<and>
           buzzOrder room' = buzzOrder room \<and>
           players room' = players room \<and>
           roundStartTime room' = roundStartTime room \<and>
           roundStartTime room' \<noteq> None \<and>
           hostId room' = hostId room \<and>
           (\<forall>c'. c' \<noteq> c \<longrightarrow> rooms st' c' = rooms st c') \<and>
           playerToRoom st' = playerToRoom st \<and>
           (\<forall>cmd st2 out2 r2. \<not> is_reset cmd \<and> step up cmd st' = Some (st2, out2) \<and>
                rooms st2 c = Some r2 \<longrightarrow> roundStartTime r2 \<noteq> None)"
proof -
  from assms(1) assms(4) have "room_inv room"
    by (blast intro: server_inv_room reachable_inv)
  with assms(6) have t: "roundStartTime room \<noteq> None"
    by (simp add: room_inv_def)
  from assms have st': "st' = st\<lparr>rooms := (rooms st)(c \<mapsto> room\<lparr>isActive := False\<rparr>)\<rparr>"
    by (simp add: stopRound_def Let_def)
  then have r: "rooms st' c = Some (room\<lparr>isActive := False\<rparr>)" by simp
  have later: "\<forall>cmd st2 out2 r2. \<not> is_reset cmd \<and> step up cmd st' = Some (st2, out2) \<and>
                rooms st2 c = Some r2 \<longrightarrow> roundStartTime r2 \<noteq> None"
  proof (intro allI impI)
    fix cmd st2 out2 r2
    assume a: "\<not> is_reset cmd \<and> step up cmd st' = Some (st2, out2) \<and> rooms st2 c = Some r2"
    from a have a1: "step up cmd st' = Some (st2, out2)" and a2: "\<not> is_reset cmd"
      and a3: "rooms st2 c = Some r2" by simp_all
    from t have t': "roundStartTime (room\<lparr>isActive := False\<rparr>) \<noteq> None" by simp
    show "roundStartTime r2 \<noteq> None"
      by (rule step_keeps_roundStart[OF a1 r t' a2 a3])
  qed
  from st' t later show ?thesis by simp
qed

theorem stopRound_only_clears_isActive_witness:
  "reachable ascii_upper quiz_state \<and> playerToRoom quiz_state ''h'' = Some ''AAAAAA'' \<and> ''AAAAAA'' \<noteq> [] \<and>
   rooms quiz_state ''AAAAAA'' = Some quiz_room \<and> hostId quiz_room = ''h'' \<and>
   isActive quiz_room \<and>
   (\<exists>room'. rooms (fst (stopRound ''h'' quiz_state)) ''AAAAAA'' = Some room' \<and>
           \<not> isActive room' \<and>
           buzzOrder room' = [''a'', ''b''] \<and>
           players room' = players quiz_room \<and>
           roundStartTime room' = Some 1000)"
proof -
  have n: "''AAAAAA'' \<noteq> []" by simp
  have s: "stopRound ''h'' quiz_state
           = (fst (stopRound ''h'' quiz_state), snd (stopRound ''h'' quiz_state))"
    by simp
  from stopRound_only_clears_isActive[OF reachable_quiz_state quiz_state_facts(2) n
      quiz_state_facts(1) quiz_state_facts(4) quiz_state_facts(5) s]
  obtain room' where "rooms (fst (stopRound ''h'' quiz_state)) ''AAAAAA'' = Some room'"
    and "room' = quiz_room\<lparr>isActive := False\<rparr>"
    by blast
  then have "rooms (fst (stopRound ''h'' quiz_state)) ''AAAAAA'' = Some room' \<and>
           \<not> isActive room' \<and>
           buzzOrder room' = [''a'', ''b''] \<and>
           players room' = players quiz_room \<and>
           roundStartTime room' = Some 1000"
    by (simp add: quiz_room_def)
  with reachable_quiz_state quiz_state_facts n show ?thesis by blast
qed

subsection \<open>Joining\<close>

text \<open>
  C7 (as amended). The \<open>joinRoom\<close> handler looks at the room code only. For an unknown
  code it answers \<open>Room not found\<close> and changes nothing. For a known code it accepts the
  command whatever the display name is: the name is stored as received (not trimmed, not
  checked for emptiness or length), and the sender is a contestant of the room afterwards.
\<close>

theorem joinRoom_checks_code_only:
  "(rooms st (up rc) = None \<longrightarrow>
      joinRoom up sid rc nm st = (st, [ToSocket sid (ErrorEv ''Room not found'')])) \<and>
   (\<forall>room. rooms st (up rc) = Some room \<longrightarrow>
      (\<exists>room'. rooms (fst (joinRoom up sid rc nm st)) (up rc) = Some room' \<and>
         map_of (players room') sid = Some \<lparr>id_player = sid, name = nm, buzzTime = None\<rparr> \<and>
         hd (snd (joinRoom up sid rc nm st)) = ToSocket sid (RoomJoined (code room) nm) \<and>
         (\<forall>m. ToSocket sid (ErrorEv m) \<notin> set (snd (joinRoom up sid rc nm st)))))"
  by (auto simp: joinRoom_def Let_def update_conv')

theorem joinRoom_checks_code_only_witness:
  "rooms quiz_state (ascii_upper ''aaaaaa'') = Some quiz_room \<and>
   (\<exists>room'. rooms (fst (joinRoom ascii_upper ''d'' ''aaaaaa'' ''   '' quiz_state)) (ascii_upper ''aaaaaa'')
               = Some room' \<and>
      map_of (players room') ''d'' = Some \<lparr>id_player = ''d'', name = ''   '', buzzTime = None\<rparr>)"
proof -
  have q: "rooms quiz_state (ascii_upper ''aaaaaa'') = Some quiz_room"
    by (simp add: upper_codes quiz_state_facts)
  from joinRoom_checks_code_only[where st = quiz_state and up = ascii_upper and rc = "''aaaaaa''"
      and sid = "''d''" and nm = "''   ''"] q
  show ?thesis by blast
qed

text \<open>
  C7 (as stated) fails: a join with the empty name is answered with \<open>roomJoined\<close> and
  adds a contestant whose name is empty.
\<close>

theorem empty_name_is_accepted:
  "hd (snd (joinRoom ascii_upper ''d'' ''AAAAAA'' [] quiz_state)) = ToSocket ''d'' (RoomJoined ''AAAAAA'' []) \<and>
   map_option players (rooms (fst (joinRoom ascii_upper ''d'' ''AAAAAA'' [] quiz_state)) ''AAAAAA'')
     = Some [(''a'', \<lparr>id_player = ''a'', name = ''Ann'', buzzTime = Some 10\<rparr>),
             (''b'', \<lparr>id_player = ''b'', name = ''Bob'', buzzTime = Some 20\<rparr>),
             (''c'', \<lparr>id_player = ''c'', name = ''Cy'', buzzTime = None\<rparr>),
             (''d'', \<lparr>id_player = ''d'', name = [], buzzTime = None\<rparr>)]"
  by (simp add: joinRoom_def Let_def upper_codes quiz_state_def quiz_room_def)

subsection \<open>Losing the host's connection\<close>

text \<open>
  C8 (as amended). When the socket that disconnects is bound to a room whose \<open>hostId\<close>
  it is, the room is deleted from \<open>rooms\<close>, the room is told \<open>Host left the room\<close>, and
  a later \<open>joinRoom\<close> or \<open>joinAsHost\<close> with that code is answered \<open>Room not found\<close>.
  Of \<open>playerToRoom\<close> only the host's own entry is deleted; the entry of every other
  socket, the room's contestants included, is what it was.
\<close>

theorem host_disconnect_removes_room:
  assumes "playerToRoom st sid = Some c" "c \<noteq> []" "rooms st c = Some room" "hostId room = sid"
    and "disconnect sid st = (st', out)"
  shows "rooms st' c = None \<and>
         out = [ToRoom c (ErrorEv ''Host left the room'')] \<and>
         playerToRoom st' sid = None \<and>
         (\<forall>s. s \<noteq> sid \<longrightarrow> playerToRoom st' s = playerToRoom st s) \<and>
         (\<forall>c'. c' \<noteq> c \<longrightarrow> rooms st' c' = rooms st c') \<and>
         (\<forall>s rc nm. up rc = c \<longrightarrow>
              joinRoom up s rc nm st' = (st', [ToSocket s (ErrorEv ''Room not found'')])) \<and>
         (\<forall>s rc. up rc = c \<longrightarrow>
              joinAsHost up s rc st' = (st', [ToSocket s (ErrorEv ''Room not found'')]))"
proof -
  from assms have st': "st' = st\<lparr>rooms := (rooms st)(c := None),
                                 playerToRoom := (playerToRoom st)(sid := None)\<rparr>"
    and out: "out = [ToRoom c (ErrorEv ''Host left the room'')]"
    by (simp_all add: disconnect_def)
  then show ?thesis
    by (simp add: joinRoom_def joinAsHost_def)
qed

theorem host_disconnect_removes_room_witness:
  "playerToRoom quiz_state ''h'' = Some ''AAAAAA'' \<and> ''AAAAAA'' \<noteq> [] \<and>
   rooms quiz_state ''AAAAAA'' = Some quiz_room \<and> hostId quiz_room = ''h'' \<and>
   rooms (fst (disconnect ''h'' quiz_state)) ''AAAAAA'' = None \<and>
   playerToRoom (fst (disconnect ''h'' quiz_state)) ''h'' = None \<and>
   snd (joinRoom ascii_upper ''e'' ''aaaaaa'' ''Eve'' (fst (disconnect ''h'' quiz_state)))
     = [ToSocket ''e'' (ErrorEv ''Room not found'')]"
proof -
  have n: "''AAAAAA'' \<noteq> []" by simp
  have d: "disconnect ''h'' quiz_state
           = (fst (disconnect ''h'' quiz_state), snd (disconnect ''h'' quiz_state))"
    by simp
  from host_disconnect_removes_room[OF quiz_state_facts(2) n quiz_state_facts(1)
      quiz_state_facts(4) d] quiz_state_facts upper_codes
  show ?thesis by simp
qed

text \<open>
  C8 (as stated) fails: after the host of the lobby disconnects the room is gone, but
  contestant \<open>a\<close> is still bound to its code in \<open>playerToRoom\<close>.
\<close>

theorem contestant_binding_survives_host:
  "final_room (lobby @ [Disconnect ''h'']) ''AAAAAA'' = None \<and>
   final_binding (lobby @ [Disconnect ''h'']) ''h'' = None \<and>
   final_binding (lobby @ [Disconnect ''h'']) ''a'' = Some ''AAAAAA''"
  by (simp add: final_room_def final_binding_def lobby_def eval_defs
        createRoom_code.simps generate_counter upper_codes)

subsection \<open>A rebound host\<close>

text \<open>
  C10. In a reachable state let \<open>h1\<close> be bound to room \<open>c\<close> and be its host. After
  another socket \<open>h2\<close> has sent \<open>joinAsHost\<close> with that code, the disconnect of \<open>h1\<close>
  takes the branch for a leaving player: the room stays in \<open>rooms\<close> with \<open>h2\<close> as host
  and with the same \<open>isActive\<close> and \<open>roundStartTime\<close>, the room is sent \<open>playerLeft\<close>,
  and \<open>players\<close> and \<open>buzzOrder\<close> lose at most the entry of \<open>h1\<close> itself. When \<open>h1\<close>
  was not also a contestant of the room, \<open>players\<close> and \<open>buzzOrder\<close> are unchanged.
\<close>

theorem old_host_disconnect_keeps_room:
  assumes "reachable up st" "playerToRoom st h1 = Some c" "c \<noteq> []" "rooms st c = Some room"
    and "hostId room = h1" "h2 \<noteq> h1" "up rc = c"
    and "joinAsHost up h2 rc st = (st1, out1)" "disconnect h1 st1 = (st2, out2)"
  shows "\<exists>room2. rooms st2 c = Some room2 \<and>
           hostId room2 = h2 \<and>
           isActive room2 = isActive room \<and>
           roundStartTime room2 = roundStartTime room \<and>
           players room2 = AList.delete h1 (players room) \<and>
           buzzOrder room2 = filter (\<lambda>i. i \<noteq> h1) (buzzOrder room) \<and>
           hd out2 = ToRoom c (PlayerLeft h1) \<and>
           (h1 \<notin> fst ` set (players room) \<longrightarrow>
              players room2 = players room \<and> buzzOrder room2 = buzzOrder room)"
proof -
  from assms have st1: "st1 = st\<lparr>rooms := (rooms st)(c \<mapsto> room\<lparr>hostId := h2\<rparr>),
                                  playerToRoom := (playerToRoom st)(h2 \<mapsto> c)\<rparr>"
    by (auto simp: joinAsHost_def)
  with assms have b: "playerToRoom st1 h1 = Some c"
    and r: "rooms st1 c = Some (room\<lparr>hostId := h2\<rparr>)"
    by simp_all
  with assms have st2: "rooms st2 c = Some (room\<lparr>hostId := h2,
                            players := AList.delete h1 (players room),
                            buzzOrder := filter (\<lambda>i. i \<noteq> h1) (buzzOrder room)\<rparr>)"
    and out2: "hd out2 = ToRoom c (PlayerLeft h1)"
    by (auto simp: disconnect_def Let_def)
  from assms(1) assms(4) have "room_inv room"
    by (blast intro: server_inv_room reachable_inv)
  then have sub: "set (buzzOrder room) \<subseteq> fst ` set (players room)"
    by (simp add: room_inv_def)
  have "h1 \<notin> fst ` set (players room) \<longrightarrow>
          AList.delete h1 (players room) = players room \<and>
          filter (\<lambda>i. i \<noteq> h1) (buzzOrder room) = buzzOrder room"
  proof
    assume n: "h1 \<notin> fst ` set (players room)"
    with sub have "h1 \<notin> set (buzzOrder room)" by blast
    then have "filter (\<lambda>i. i \<noteq> h1) (buzzOrder room) = buzzOrder room"
      by (induction "buzzOrder room") (auto simp: filter_id_conv)
    with n show "AList.delete h1 (players room) = players room \<and>
          filter (\<lambda>i. i \<noteq> h1) (buzzOrder room) = buzzOrder room"
      by simp
  qed
  with st2 out2 show ?thesis by simp
qed

theorem old_host_disconnect_keeps_room_witness:
  "reachable ascii_upper quiz_state \<and> playerToRoom quiz_state ''h'' = Some ''AAAAAA'' \<and> ''AAAAAA'' \<noteq> [] \<and>
   rooms quiz_state ''AAAAAA'' = Some quiz_room \<and> hostId quiz_room = ''h'' \<and> ''h2'' \<noteq> ''h'' \<and>
   ascii_upper ''aaaaaa'' = ''AAAAAA'' \<and>
   ''h'' \<notin> fst ` set (players quiz_room) \<and>
   (\<exists>room2. rooms (fst (disconnect ''h'' (fst (joinAsHost ascii_upper ''h2'' ''aaaaaa'' quiz_state)))) ''AAAAAA''
              = Some room2 \<and>
      hostId room2 = ''h2'' \<and>
      isActive room2 = isActive quiz_room \<and>
      roundStartTime room2 = roundStartTime quiz_room \<and>
      players room2 = players quiz_room \<and>
      buzzOrder room2 = buzzOrder quiz_room)"
proof -
  have n: "''AAAAAA'' \<noteq> []" by simp
  have h: "''h2'' \<noteq> ''h''" by simp
  have p: "''h'' \<notin> fst ` set (players quiz_room)" by (simp add: quiz_room_def)
  have j: "joinAsHost ascii_upper ''h2'' ''aaaaaa'' quiz_state
           = (fst (joinAsHost ascii_upper ''h2'' ''aaaaaa'' quiz_state),
              snd (joinAsHost ascii_upper ''h2'' ''aaaaaa'' quiz_state))"
    by simp
  have d: "disconnect ''h'' (fst (joinAsHost ascii_upper ''h2'' ''aaaaaa'' quiz_state))
           = (fst (disconnect ''h'' (fst (joinAsHost ascii_upper ''h2'' ''aaaaaa'' quiz_state))),
              snd (disconnect ''h'' (fst (joinAsHost ascii_upper ''h2'' ''aaaaaa'' quiz_state))))"
    by simp
  from old_host_disconnect_keeps_room[OF reachable_quiz_state quiz_state_facts(2) n
      quiz_state_facts(1) quiz_state_facts(4) h upper_codes(1) j d] p
  have "\<exists>room2. rooms (fst (disconnect ''h'' (fst (joinAsHost ascii_upper ''h2'' ''aaaaaa'' quiz_state)))) ''AAAAAA''
              = Some room2 \<and>
      hostId room2 = ''h2'' \<and>
      isActive room2 = isActive quiz_room \<and>
      roundStartTime room2 = roundStartTime quiz_room \<and>
      players room2 = players quiz_room \<and>
      buzzOrder room2 = buzzOrder quiz_room"
    by auto
  with reachable_quiz_state quiz_state_facts n h upper_codes(1) p show ?thesis
    by blast
qed

subsection \<open>Creating a room\<close>

lemma createRoom_code_drawn:
  assumes "createRoom_code rnd n rs = Some c"
  shows "\<exists>k. c = generateRoomCode rnd (n + 6 * k)"
proof (rule createRoom_code.raw_induct[
    where P = "\<lambda>rnd n rs c. \<exists>k. c = generateRoomCode rnd (n + 6 * k)", OF _ assms])
  fix f :: "(nat \<Rightarrow> nat) \<Rightarrow> nat \<Rightarrow> (string \<rightharpoonup> Room) \<Rightarrow> string option" and rnd n rs c
  assume ih: "\<And>rnd n rs c. f rnd n rs = Some c \<Longrightarrow> \<exists>k. c = generateRoomCode rnd (n + 6 * k)"
    and eq: "(if rs (generateRoomCode rnd n) \<noteq> None then f rnd (n + 6) rs
              else Some (generateRoomCode rnd n)) = Some c"
  show "\<exists>k. c = generateRoomCode rnd (n + 6 * k)"
  proof (cases "rs (generateRoomCode rnd n) = None")
    case True
    with eq have "c = generateRoomCode rnd (n + 6 * 0)" by auto
    then show ?thesis by blast
  next
    case False
    with eq have "f rnd (n + 6) rs = Some c" by simp
    then obtain k where "c = generateRoomCode rnd ((n + 6) + 6 * k)"
      using ih by blast
    then have "c = generateRoomCode rnd (n + 6 * Suc k)"
      by (simp add: add.assoc)
    then show ?thesis by blast
  qed
qed

text \<open>
  Without any assumption on the source: \<open>createRoom\<close> returns exactly when one of the
  codes the source draws, the first or a later one, is not the code of a live room, and
  whenever it returns, the code it reports was not the code of any room before the call.
\<close>

lemma createRoom_returns_iff_free_code_drawn:
  "(createRoom sid rnd st \<noteq> None \<longleftrightarrow> (\<exists>k. rooms st (generateRoomCode rnd (6 * k)) = None)) \<and>
   (\<forall>st' out. createRoom sid rnd st = Some (st', out) \<longrightarrow>
      (\<exists>c. rooms st c = None \<and>
           out = [ToSocket sid (RoomCreated c)] \<and>
           rooms st' c = Some \<lparr>id_room = c, code = c, hostId = sid, players = [],
                                isActive = False, roundStartTime = None, buzzOrder = []\<rparr> \<and>
           playerToRoom st' sid = Some c \<and>
           (\<forall>c'. c' \<noteq> c \<longrightarrow> rooms st' c' = rooms st c')))"
proof (intro conjI allI impI)
  show "createRoom sid rnd st \<noteq> None \<longleftrightarrow> (\<exists>k. rooms st (generateRoomCode rnd (6 * k)) = None)"
  proof
    assume "createRoom sid rnd st \<noteq> None"
    then obtain c where c: "createRoom_code rnd 0 (rooms st) = Some c"
      by (auto simp: createRoom_def split: option.splits)
    from createRoom_code_drawn[OF c] createRoom_code_fresh[OF c]
    show "\<exists>k. rooms st (generateRoomCode rnd (6 * k)) = None" by auto
  next
    assume "\<exists>k. rooms st (generateRoomCode rnd (6 * k)) = None"
    then obtain k where "rooms st (generateRoomCode rnd (0 + 6 * k)) = None" by auto
    then obtain c where "createRoom_code rnd 0 (rooms st) = Some c"
      using createRoom_code_returns[of "rooms st" rnd 0 k] by blast
    then show "createRoom sid rnd st \<noteq> None" by (simp add: createRoom_def)
  qed
next
  fix st' out
  assume a: "createRoom sid rnd st = Some (st', out)"
  then obtain c where c: "createRoom_code rnd 0 (rooms st) = Some c"
    by (auto simp: createRoom_def split: option.splits)
  from createRoom_code_fresh[OF c] have "rooms st c = None" .
  with a c show "\<exists>c. rooms st c = None \<and>
           out = [ToSocket sid (RoomCreated c)] \<and>
           rooms st' c = Some \<lparr>id_room = c, code = c, hostId = sid, players = [],
                                isActive = False, roundStartTime = None, buzzOrder = []\<rparr> \<and>
           playerToRoom st' sid = Some c \<and>
           (\<forall>c'. c' \<noteq> c \<longrightarrow> rooms st' c' = rooms st c')"
    by (auto simp: createRoom_def)
qed

lemma length_chars: "length chars = 32"
  by (simp add: chars_def)

lemma distinct_chars: "distinct chars"
  by (simp add: chars_def)

lemma card_code_space: "card code_space = 32 ^ 6"
proof -
  have "code_space = {xs. set xs \<subseteq> set chars \<and> length xs = 6}"
    by (auto simp: code_space_def)
  moreover have "card (set chars) = 32"
    using distinct_card[OF distinct_chars] length_chars by simp
  ultimately show ?thesis
    using card_lists_length_eq[of "set chars" 6] by simp
qed

lemma concat_charAt:
  "list_all (\<lambda>d. d < length s) ds \<Longrightarrow> concat (map (charAt s) ds) = map ((!) s) ds"
  by (induction ds) (auto simp: charAt_def)

lemma generateRoomCode_block:
  "generateRoomCode rnd n = concat (map (charAt chars) (map (\<lambda>i. rnd (n + i)) [0..<6]))"
  by (simp add: generateRoomCode_def upt_rec)

lemma code_has_indices:
  "set s \<subseteq> set chars \<Longrightarrow>
   \<exists>ds. length ds = length s \<and> list_all (\<lambda>d. d < length chars) ds \<and> map ((!) chars) ds = s"
proof (induction s)
  case Nil
  then show ?case by simp
next
  case (Cons x s)
  then obtain ds where ds: "length ds = length s" "list_all (\<lambda>d. d < length chars) ds"
    "map ((!) chars) ds = s" by auto
  from Cons.prems obtain d where d: "d < length chars" "chars ! d = x"
    by (auto simp: in_set_conv_nth)
  from ds d have "length (d # ds) = length (x # s) \<and>
      list_all (\<lambda>d. d < length chars) (d # ds) \<and> map ((!) chars) (d # ds) = x # s"
    by simp
  then show ?case by (rule exI)
qed

lemma fair_draws_every_code:
  assumes "fair rnd" "s \<in> code_space"
  shows "\<exists>k. generateRoomCode rnd (6 * k) = s"
proof -
  from assms(2) have "length s = 6" "set s \<subseteq> set chars"
    by (simp_all add: code_space_def)
  with code_has_indices[of s] obtain ds where ds: "length ds = 6"
    "list_all (\<lambda>d. d < length chars) ds" "map ((!) chars) ds = s" by auto
  with assms(1) obtain k where k: "map (\<lambda>i. rnd (6 * k + i)) [0..<6] = ds"
    unfolding fair_def by blast
  have "generateRoomCode rnd (6 * k) = concat (map (charAt chars) ds)"
    using k by (simp only: generateRoomCode_block)
  also have "\<dots> = s"
    using ds by (simp add: concat_charAt)
  finally show ?thesis by blast
qed

lemma free_code_exists:
  assumes "finite (dom rs)" "card (dom rs) < card code_space"
  shows "\<exists>s \<in> code_space. rs s = None"
proof (rule ccontr)
  assume "\<not> (\<exists>s \<in> code_space. rs s = None)"
  then have "code_space \<subseteq> dom rs" by auto
  with assms(1) have "card code_space \<le> card (dom rs)" by (rule card_mono)
  with assms(2) show False by simp
qed

lemma digit_encode:
  "list_all (\<lambda>d. d < 32) ds \<Longrightarrow> i < length ds \<Longrightarrow> digit i (encode ds) = ds ! i"
proof (induction ds arbitrary: i)
  case Nil
  then show ?case by simp
next
  case (Cons d ds)
  then show ?case by (cases i) simp_all
qed

lemma fair_counter: "fair counter"
  unfolding fair_def
proof (intro allI impI)
  fix ds :: "nat list"
  assume a: "length ds = 6 \<and> list_all (\<lambda>d. d < length chars) ds"
  then have l: "length ds = 6" and b: "list_all (\<lambda>d. d < 32) ds"
    by (simp_all add: length_chars)
  have "map (\<lambda>i. counter (6 * encode ds + i)) [0..<6] = ds"
  proof (rule nth_equalityI)
    show "length (map (\<lambda>i. counter (6 * encode ds + i)) [0..<6]) = length ds"
      using l by simp
  next
    fix i
    assume "i < length (map (\<lambda>i. counter (6 * encode ds + i)) [0..<6])"
    then have i: "i < 6" by simp
    then have "counter (6 * encode ds + i) = digit i (encode ds)"
      by (simp add: counter_def)
    also have "\<dots> = ds ! i"
      using b i l by (simp add: digit_encode)
    finally show "map (\<lambda>i. counter (6 * encode ds + i)) [0..<6] ! i = ds ! i"
      using i by simp
  qed
  then show "\<exists>k. map (\<lambda>i. counter (6 * k + i)) [0..<6] = ds" by blast
qed

text \<open>
  C9. Let the live rooms be finitely many and fewer than there are codes, and let the
  random source be fair. Then \<open>createRoom\<close> returns: the retry loop ends, the code it
  reports is not the code of any room that existed, the new room is installed under that
  code with the caller as host, and every room that existed is still there unchanged.
\<close>

theorem createRoom_returns_fresh_code:
  assumes "finite (dom (rooms st))" "card (dom (rooms st)) < card code_space" "fair rnd"
  shows "\<exists>st' out c. createRoom sid rnd st = Some (st', out) \<and>
           rooms st c = None \<and>
           out = [ToSocket sid (RoomCreated c)] \<and>
           rooms st' c = Some \<lparr>id_room = c, code = c, hostId = sid, players = [],
                                isActive = False, roundStartTime = None, buzzOrder = []\<rparr> \<and>
           playerToRoom st' sid = Some c \<and>
           (\<forall>c'. c' \<noteq> c \<longrightarrow> rooms st' c' = rooms st c')"
proof -
  from free_code_exists[OF assms(1) assms(2)] obtain s where
    s: "s \<in> code_space" "rooms st s = None" by blast
  from fair_draws_every_code[OF assms(3) s(1)] obtain k where
    "generateRoomCode rnd (6 * k) = s" by blast
  with s(2) have "\<exists>k. rooms st (generateRoomCode rnd (6 * k)) = None" by auto
  with createRoom_returns_iff_free_code_drawn[of sid rnd st]
  obtain st' out where r: "createRoom sid rnd st = Some (st', out)" by auto
  with createRoom_returns_iff_free_code_drawn[of sid rnd st] show ?thesis by blast
qed

theorem createRoom_returns_fresh_code_witness:
  "finite (dom (rooms quiz_state)) \<and> card (dom (rooms quiz_state)) < card code_space \<and>
   fair counter \<and>
   rooms quiz_state ''AAAAAA'' \<noteq> None \<and> rooms quiz_state ''BAAAAA'' = None \<and>
   map_option snd (createRoom ''g'' counter quiz_state)
     = Some [ToSocket ''g'' (RoomCreated ''BAAAAA'')]"
proof -
  have d: "dom (rooms quiz_state) = {''AAAAAA''}"
    by (simp add: quiz_state_def)
  then have f: "finite (dom (rooms quiz_state))" by simp
  from d have c: "card (dom (rooms quiz_state)) < card code_space"
    by (simp add: card_code_space)
  have e: "map_option snd (createRoom ''g'' counter quiz_state)
           = Some [ToSocket ''g'' (RoomCreated ''BAAAAA'')]"
    by (simp add: createRoom_def createRoom_code.simps generate_counter quiz_state_def)
  have q: "rooms quiz_state ''AAAAAA'' \<noteq> None \<and> rooms quiz_state ''BAAAAA'' = None"
    by (simp add: quiz_state_def)
  from createRoom_returns_fresh_code[OF f c fair_counter, of "''g''"] f c fair_counter q e
  show ?thesis by simp
qed

subsection \<open>Joining again after a signal\<close>

text \<open>
  Two halves of the relation between \<open>buzzOrder\<close> and the contestants hold in every
  reachable state: every entry of \<open>buzzOrder\<close> is a key of \<open>players\<close>, and a contestant
  whose \<open>buzzTime\<close> is set is in \<open>buzzOrder\<close>.
\<close>

lemma arrivals_are_contestants:
  "reachable up st \<Longrightarrow> rooms st c = Some r \<Longrightarrow> set (buzzOrder r) \<subseteq> fst ` set (players r)"
  by (drule reachable_inv, drule server_inv_room, assumption) (simp add: room_inv_def)

lemma elapsed_set_is_in_arrivals:
  "reachable up st \<Longrightarrow> rooms st c = Some r \<Longrightarrow> map_of (players r) sid = Some p \<Longrightarrow>
   buzzTime p \<noteq> None \<Longrightarrow> sid \<in> set (buzzOrder r)"
  by (drule reachable_inv, drule server_inv_room, assumption) (auto simp: room_inv_def)

text \<open>
  C3, at its failing input. Contestant \<open>a\<close> signals and then sends \<open>joinRoom\<close> for the
  same room on the same socket: the handler stores a fresh player record with
  \<open>buzzTime = null\<close> and leaves \<open>buzzOrder\<close> alone, so \<open>a\<close> is in \<open>buzzOrder\<close> with a
  null \<open>buzzTime\<close>.
\<close>

theorem rejoin_clears_elapsed_but_not_arrival:
  "map_option buzzOrder (final_room rejoin ''AAAAAA'') = Some [''a''] \<and>
   map_option players (final_room rejoin ''AAAAAA'')
     = Some [(''a'', \<lparr>id_player = ''a'', name = ''Ann'', buzzTime = None\<rparr>)]"
  by (simp add: final_room_def rejoin_def eval_defs
        createRoom_code.simps generate_counter upper_codes)

text \<open>
  C2, at its failing input. After the same session the next signal of \<open>a\<close> passes the
  guard \<open>player.buzzTime !== null\<close> and is appended: \<open>buzzOrder\<close> holds \<open>a\<close> twice and
  is longer than the room has contestants.
\<close>

theorem rejoin_duplicates_arrival:
  "map_option buzzOrder (final_room (rejoin @ [PressBuzzer ''a'' 1020]) ''AAAAAA'')
     = Some [''a'', ''a''] \<and>
   map_option (length \<circ> players) (final_room (rejoin @ [PressBuzzer ''a'' 1020]) ''AAAAAA'')
     = Some 1 \<and>
   announced (rejoin @ [PressBuzzer ''a'' 1020]) ''AAAAAA'' = Some [1, 2]"
  by (simp add: final_room_def announced_def rejoin_def eval_defs
        createRoom_code.simps generate_counter upper_codes)

end
